theory Spec2Isabelle
  imports Main "HOL-Library.Char_ord" "HOL-Library.List_Lexorder"
begin

section \<open>salesforce-to-types: the type generator of src/libs/generator.ts\<close>

text \<open>
  A shallow embedding of the class \<^verbatim>\<open>Generator\<close>. JavaScript strings are modelled as
  \<^typ>\<open>string\<close> (lists of characters); the texts the generator emits are ASCII, and
  a line feed is written \<open>\<newline>\<close>. A value that may be \<^verbatim>\<open>null\<close> or
  \<^verbatim>\<open>undefined\<close> is an \<^typ>\<open>'a option\<close>. JavaScript's truthiness of such a string
  (\<^verbatim>\<open>if (s)\<close>) is written out: absent and the empty string are both falsy.
\<close>

subsection \<open>JavaScript primitives the generator relies on\<close>

definition SQ :: string where
  "SQ = [CHR 0x27]"

text \<open>\<^verbatim>\<open>if (s)\<close> for \<^verbatim>\<open>s: string | null | undefined\<close>.\<close>

definition truthy :: "string option \<Rightarrow> bool" where
  "truthy s = (case s of None \<Rightarrow> False | Some t \<Rightarrow> t \<noteq> [])"

text \<open>A \<^verbatim>\<open>null\<close> interpolated into a template literal prints as the word null.\<close>

definition interpolate :: "string option \<Rightarrow> string" where
  "interpolate s = (case s of None \<Rightarrow> ''null'' | Some t \<Rightarrow> t)"

text \<open>
  \<^verbatim>\<open>xs.findIndex(p)\<close>: the index of the first element satisfying \<open>p\<close>, or \<open>-1\<close>.
\<close>

fun findIndex :: "('a \<Rightarrow> bool) \<Rightarrow> 'a list \<Rightarrow> int" where
  "findIndex p [] = - 1"
| "findIndex p (x # xs) =
     (if p x then 0
      else (let i = findIndex p xs in if i < 0 then - 1 else i + 1))"

text \<open>\<^verbatim>\<open>xs.splice(index, 1)\<close> for an index inside the array: the element there is removed.\<close>

definition splice1 :: "nat \<Rightarrow> 'a list \<Rightarrow> 'a list" where
  "splice1 i xs = take i xs @ drop (Suc i) xs"

subsection \<open>The fixed texts (lines 6 to 31 and \<^verbatim>\<open>generateFileHeader\<close>)\<close>

definition header :: string where
  "header =
     ''\<newline>/**'' @
     ''\<newline> * DO NOT MODIFY THIS FILE!'' @
     ''\<newline> *'' @
     ''\<newline> * This file is generated by the salesforce-to-types plugin and'' @
     ''\<newline> * may be regenerated in the future. It is recommended to make'' @
     ''\<newline> * changes to that plugin then regenerate these files.'' @
     ''\<newline> *'' @
     ''\<newline> */'' @
     ''\<newline>''"

definition sobject :: string where
  "sobject =
     header @ ''\<newline>import { ID, Attribute } from '' @ SQ @ ''./sobjectFieldTypes'' @ SQ @ '';'' @
     ''\<newline>'' @
     ''\<newline>export type SObjectAttribute<TString> = SObject & Attribute<TString>;'' @
     ''\<newline>export interface SObject {'' @
     ''\<newline>  Id: ID;'' @
     ''\<newline>}'' @
     ''\<newline>''"

definition sobjectFieldTypes :: string where
  "sobjectFieldTypes =
     header @
     ''\<newline>export type ID = string;'' @
     ''\<newline>export type DateString = string;'' @
     ''\<newline>export type PhoneString = string;'' @
     ''\<newline>export type Attribute<TString> = { attributes: { type: TString } }'' @
     ''\<newline>export type ChildRecords<T, TString> = { records: Array<Partial<T> & Attribute<TString>> };'' @
     ''\<newline>''"

definition generateFileHeader :: string where
  "generateFileHeader =
     ''\<newline>      '' @ header @ ''\<newline>'' @
     ''\<newline>      import { SObjectAttribute } from '' @ SQ @ ''./sobject'' @ SQ @ '';'' @ ''\<newline>'' @
     ''\<newline>      import { ID, ChildRecords, DateString, PhoneString } from '' @ SQ @
       ''./sobjectFieldTypes'' @ SQ @ '';'' @
     ''\<newline>    ''"

subsection \<open>The data model: the describe result of the connection\<close>

record Field =
  name :: string
  ftype :: string
  calculated :: bool
  referenceTo :: "string list"
  relationshipName :: "string option"

record ChildRelationship =
  childSObject :: string
  childRelationshipName :: "string option"
  junctionReferenceTo :: "string list"

record DescribeSObjectResult =
  fieldList :: "Field list"
  childRelationships :: "ChildRelationship list"

subsection \<open>The scalar type of a field (the \<^verbatim>\<open>switch\<close> of lines 80 to 105)\<close>

definition typeName :: "string \<Rightarrow> string" where
  "typeName t =
     (if t = ''boolean'' then ''boolean''
      else if t = ''int'' \<or> t = ''double'' \<or> t = ''currency'' then ''number''
      else if t = ''date'' \<or> t = ''datetime'' then ''DateString | null''
      else if t = ''phone'' then ''PhoneString''
      else if t = ''string'' \<or> t = ''textarea'' then ''string''
      else if t = ''reference'' then ''ID''
      else ''string //'' @ t)"

subsection \<open>Membership in the list of known objects\<close>

text \<open>
  The test \<^verbatim>\<open>sObjects && sObjects.find(f => f === r)\<close>. \<^verbatim>\<open>find\<close> returns the element
  found, and the result is used as a condition: the list may be absent (single mode),
  and an element that is the empty string is found but falsy.
\<close>

definition known :: "string list option \<Rightarrow> string \<Rightarrow> bool" where
  "known sObjects r =
     (case sObjects of
        None \<Rightarrow> False
      | Some xs \<Rightarrow> truthy (find (\<lambda>f. f = r) xs))"

subsection \<open>One field (the callback of lines 74 to 122)\<close>

text \<open>The callback of \<^verbatim>\<open>field.referenceTo.forEach\<close> (lines 112 to 117).\<close>

definition addReference :: "string list option \<Rightarrow> string option \<Rightarrow> string \<Rightarrow> string option" where
  "addReference sObjects refTypeName r =
     (if known sObjects r
      then Some (if truthy refTypeName then interpolate refTypeName @ '' | '' @ r else r)
      else refTypeName)"

definition refTypeNameOf :: "string list option \<Rightarrow> Field \<Rightarrow> string option" where
  "refTypeNameOf sObjects field = foldl (addReference sObjects) None (referenceTo field)"

definition fieldContents :: "string list option \<Rightarrow> string \<Rightarrow> Field \<Rightarrow> string" where
  "fieldContents sObjects typeContents field =
     (if name field = ''Id'' then typeContents
      else
        (let tc1 = typeContents @ ''\<newline>  '' @ name field @ '': '' @ typeName (ftype field) @ '';'';
             tc2 = (if calculated field then tc1 @ '' //calculated'' else tc1)
         in if ftype field = ''reference''
            then (let refTypeName = refTypeNameOf sObjects field
                  in if truthy refTypeName
                     then tc2 @ ''\<newline>  '' @ interpolate (relationshipName field) @ '': '' @
                          interpolate refTypeName @ '';''
                     else tc2)
            else tc2))"

subsection \<open>One child relationship (the callback of lines 123 to 152)\<close>

text \<open>
  The callback reads and writes three variables: the text built so far, the clone of
  the caller's list \<^verbatim>\<open>specialChildrenToMap\<close>, and the generator's set
  \<^verbatim>\<open>unmappedChildRelationships\<close>. A JavaScript \<^verbatim>\<open>Set\<close> keeps its members in
  insertion order without repetition; it is a list here and \<open>set_add\<close> is its
  \<^verbatim>\<open>add\<close>.
\<close>

record Loop =
  l_typeContents :: string
  l_clone :: "string list"
  l_unmapped :: "string list"

definition set_add :: "string \<Rightarrow> string list \<Rightarrow> string list" where
  "set_add x s = (if x \<in> set s then s else s @ [x])"

definition childRecordsLine :: "string \<Rightarrow> string \<Rightarrow> string \<Rightarrow> string" where
  "childRecordsLine indent prop c =
     ''\<newline>'' @ indent @ prop @ '': ChildRecords<'' @ c @ '', '' @ SQ @ c @ SQ @ ''>;''"

definition childContents :: "string list option \<Rightarrow> Loop \<Rightarrow> ChildRelationship \<Rightarrow> Loop" where
  "childContents sObjects st child =
     (let c = childSObject child;
          rn = childRelationshipName child
      in if known sObjects c then
           (if truthy rn then
              st\<lparr>l_typeContents := l_typeContents st @ childRecordsLine ''  '' (interpolate rn) c\<rparr>
            else if length (junctionReferenceTo child) > 0 then
              st\<lparr>l_typeContents :=
                   foldl (\<lambda>tc j. tc @ childRecordsLine '' '' j c) (l_typeContents st)
                     (junctionReferenceTo child)\<rparr>
            else
              (let index = findIndex (\<lambda>f. f = c) (l_clone st)
               in if index > 0 then
                    st\<lparr>l_clone := splice1 (nat index) (l_clone st),
                       l_typeContents := l_typeContents st @ ''\<newline>  '' @ c @ '': '' @ c @ '';''\<rparr>
                  else st))
         else if truthy rn then
           st\<lparr>l_unmapped := set_add c (l_unmapped st),
              l_typeContents := l_typeContents st @ childRecordsLine ''  '' (interpolate rn) c\<rparr>
         else st)"

subsection \<open>\<^verbatim>\<open>generateSObjectTypeContents\<close> (lines 67 to 155)\<close>

text \<open>
  The description of the object comes from the connection, a parameter here:
  \<open>connection objectName = None\<close> is a describe call that fails, and then the promise
  of \<^verbatim>\<open>generateSObjectTypeContents\<close> is rejected. \<open>buildTypeContents\<close> is the part
  of the function after the \<^verbatim>\<open>await\<close> of line 69. It returns the text of the block and
  the set \<^verbatim>\<open>unmappedChildRelationships\<close> after the call.
\<close>

definition buildTypeContents ::
  "DescribeSObjectResult \<Rightarrow> string \<Rightarrow> string list option \<Rightarrow> string list option \<Rightarrow>
   string list \<Rightarrow> string \<times> string list" where
  "buildTypeContents d objectName sObjects specialChildrenToMap unmappedSet =
     (let tc0 = [] @ ''\<newline>\<newline>export interface '' @ objectName @
                  '' extends SObjectAttribute<'' @ SQ @ objectName @ SQ @ ''> {'';
          clone = (case specialChildrenToMap of None \<Rightarrow> [] | Some xs \<Rightarrow> xs);
          tc1 = foldl (fieldContents sObjects) tc0 (fieldList d);
          st = foldl (childContents sObjects)
                 \<lparr>l_typeContents = tc1, l_clone = clone, l_unmapped = unmappedSet\<rparr>
                 (childRelationships d)
      in (l_typeContents st @ ''\<newline>};\<newline>'', l_unmapped st))"

definition generateSObjectTypeContents ::
  "(string \<Rightarrow> DescribeSObjectResult option) \<Rightarrow> string \<Rightarrow> string list option \<Rightarrow>
   string list option \<Rightarrow> string list \<Rightarrow> (string \<times> string list) option" where
  "generateSObjectTypeContents connection objectName sObjects specialChildrenToMap unmappedSet =
     (case connection objectName of
        None \<Rightarrow> None
      | Some d \<Rightarrow> Some (buildTypeContents d objectName sObjects specialChildrenToMap unmappedSet))"

subsection \<open>Strings and paths of the file name (line 169 and line 171)\<close>

text \<open>
  \<^verbatim>\<open>s.replace(pat, rep)\<close> with a string pattern replaces the first occurrence of the
  pattern only. (The replacement texts of the generator are empty, so the special
  replacement patterns of JavaScript do not arise.)
\<close>

fun replace :: "string \<Rightarrow> string \<Rightarrow> string \<Rightarrow> string" where
  "replace pat rep [] = (if pat = [] then rep else [])"
| "replace pat rep (c # cs) =
     (if take (length pat) (c # cs) = pat then rep @ drop (length pat) (c # cs)
      else c # replace pat rep cs)"

text \<open>\<^verbatim>\<open>toLowerCase\<close> on the ASCII letters; other characters are left as they are.\<close>

definition toLowerChar :: "char \<Rightarrow> char" where
  "toLowerChar c =
     (if CHR ''A'' \<le> c \<and> c \<le> CHR ''Z'' then char_of (of_char c + (32 :: nat)) else c)"

definition toLowerCase :: "string \<Rightarrow> string" where
  "toLowerCase s = map toLowerChar s"

text \<open>
  \<^verbatim>\<open>join\<close> is the platform's \<^verbatim>\<open>path.join\<close>; a path is kept as the directory and the
  file name it was joined from.
\<close>

datatype path = Join string string

definition join :: "string \<Rightarrow> string \<Rightarrow> path" where
  "join dir file = Join dir file"

subsection \<open>The generator and the process around it\<close>

record IConfig =
  sobjects :: "string list"
  specialChildrenToMap :: "string list option"

text \<open>What reading and parsing the configuration file gives (\<^verbatim>\<open>readFile\<close>).\<close>

datatype config_file =
    Unreadable
  | Malformed string
  | Parsed IConfig

datatype error =
    ReaddirError
  | ReadFileError
  | JsonError
  | DescribeError
  | TypeError

text \<open>
  The fields of the class (\<open>flags\<close>, \<open>createdFiles\<close>, \<open>unmappedChildRelationships\<close>,
  the connection of \<open>org\<close>, whose describe call is a function of the object name
  here, \<open>None\<close> where it fails) and the parts of the process the methods touch: whether
  a directory can be listed, the configuration file behind a path, the files written
  with \<^verbatim>\<open>core.fs.writeFile\<close> in the order of the calls (every write succeeds), and the
  text written to the standard error stream. Messages of \<^verbatim>\<open>ux.log\<close> are left out.
\<close>

record Generator =
  flags_sobject :: "string option"
  flags_config :: "string option"
  flags_outputdir :: string
  createdFiles :: "path list"
  unmappedChildRelationships :: "string list"
  connection_describe :: "string \<Rightarrow> DescribeSObjectResult option"
  fs_readdir :: "string \<Rightarrow> bool"
  fs_config :: "string \<Rightarrow> config_file"
  fs_written :: "(path \<times> string) list"
  stderr :: string

definition writeFile :: "path \<Rightarrow> string \<Rightarrow> Generator \<Rightarrow> Generator" where
  "writeFile filePath contents g = g\<lparr>fs_written := fs_written g @ [(filePath, contents)]\<rparr>"

definition createBaseSObjectType :: "Generator \<Rightarrow> error option \<times> Generator" where
  "createBaseSObjectType g =
     (if \<not> fs_readdir g (flags_outputdir g) then (Some ReaddirError, g)
      else
        (let filePath = join (flags_outputdir g) ''sobject.ts'';
             g1 = writeFile filePath sobject g
         in (None, g1\<lparr>createdFiles := createdFiles g1 @ [filePath]\<rparr>)))"

definition createSalesforceFieldTypes :: "Generator \<Rightarrow> error option \<times> Generator" where
  "createSalesforceFieldTypes g =
     (if \<not> fs_readdir g (flags_outputdir g) then (Some ReaddirError, g)
      else
        (let filePath = join (flags_outputdir g) ''sobjectFieldTypes.ts'';
             g1 = writeFile filePath sobjectFieldTypes g
         in (None, g1\<lparr>createdFiles := createdFiles g1 @ [filePath]\<rparr>)))"

text \<open>
  \<^verbatim>\<open>readFile\<close> (lines 177 to 193). A malformed document is reported on the standard
  error stream with the stack of the exception, which is then thrown again.
\<close>

definition readFile :: "Generator \<Rightarrow> (error + IConfig) \<times> Generator" where
  "readFile g =
     (case flags_config g of
        None \<Rightarrow> (Inl TypeError, g)
      | Some file \<Rightarrow>
          (case fs_config g file of
             Unreadable \<Rightarrow> (Inl ReadFileError, g)
           | Malformed stack \<Rightarrow>
               (Inl JsonError,
                g\<lparr>stderr := stderr g @ ''FAILED TO PARSE JSON: '' @ SQ @ file @ SQ @ ''\<newline>'' @
                               stack @ ''\<newline>''\<rparr>)
           | Parsed jsonParsed \<Rightarrow> (Inr jsonParsed, g)))"

subsection \<open>Single mode: \<^verbatim>\<open>generateSObject\<close> (lines 166 to 175)\<close>

definition fileNameOf :: "string \<Rightarrow> string" where
  "fileNameOf objectName =
     (let pascalObjectName = replace ''_'' [] (replace ''__c'' [] objectName)
      in toLowerCase pascalObjectName @ ''.ts'')"

text \<open>
  The variable \<^verbatim>\<open>typeContents\<close> is initialised with the file header (line 168) and
  assigned again, not appended to, at line 170.
\<close>

definition generateSObject :: "Generator \<Rightarrow> error option \<times> Generator" where
  "generateSObject g =
     (case flags_sobject g of
        None \<Rightarrow> (Some TypeError, g)
      | Some objectName \<Rightarrow>
          (let typeContents = generateFileHeader
           in case generateSObjectTypeContents (connection_describe g) objectName None None
                     (unmappedChildRelationships g) of
                None \<Rightarrow> (Some DescribeError, g)
              | Some (block, unmappedSet) \<Rightarrow>
                  (let typeContents = block;
                       filePath = join (flags_outputdir g) (fileNameOf objectName);
                       g1 = writeFile filePath typeContents
                              (g\<lparr>unmappedChildRelationships := unmappedSet\<rparr>)
                   in (None, g1\<lparr>createdFiles := createdFiles g1 @ [filePath]\<rparr>))))"

subsection \<open>Batch mode: \<^verbatim>\<open>generateSObjectsConfig\<close> (lines 209 to 232)\<close>

text \<open>
  The loop of lines 214 to 217 calls \<^verbatim>\<open>generateSObjectTypeContents\<close> once per name
  and keeps the promises, in the order of the names. Each call stops at its
  \<^verbatim>\<open>await\<close> of the describe request; what follows the \<^verbatim>\<open>await\<close> has no further
  \<^verbatim>\<open>await\<close>, so it runs in one piece when the request completes. The order in which
  the requests complete is the parameter \<open>order\<close>, a list of indices into the names.
  \<open>settle\<close> runs the rest of call number \<open>i\<close> on the set
  \<^verbatim>\<open>unmappedChildRelationships\<close> as it is at that moment.
\<close>

datatype 'a promise = Fulfilled 'a | Rejected

text \<open>
  A promise used as a string (line 221, \<^verbatim>\<open>typeContents += p\<close>) is converted with
  \<^verbatim>\<open>Object.prototype.toString\<close>, whatever its state and its value.
\<close>

definition promiseToString :: "'a promise \<Rightarrow> string" where
  "promiseToString p = ''[object Promise]''"

definition settle :: "Generator \<Rightarrow> IConfig \<Rightarrow> string list \<Rightarrow> nat \<Rightarrow> string list" where
  "settle g cfg unmappedSet i =
     (if i < length (sobjects cfg)
      then (case generateSObjectTypeContents (connection_describe g) (sobjects cfg ! i)
                   (Some (sobjects cfg)) (specialChildrenToMap cfg) unmappedSet of
              None \<Rightarrow> unmappedSet
            | Some (block, unmappedSet') \<Rightarrow> unmappedSet')
      else unmappedSet)"

definition promiseOf :: "Generator \<Rightarrow> IConfig \<Rightarrow> string \<Rightarrow> string promise" where
  "promiseOf g cfg s =
     (case generateSObjectTypeContents (connection_describe g) s
             (Some (sobjects cfg)) (specialChildrenToMap cfg) [] of
        None \<Rightarrow> Rejected
      | Some (block, unmappedSet') \<Rightarrow> Fulfilled block)"

definition unmappedLine :: "string \<Rightarrow> string" where
  "unmappedLine unmappedType = ''\<newline>type '' @ unmappedType @ '' = any; ''"

definition generateSObjectsConfig :: "nat list \<Rightarrow> Generator \<Rightarrow> error option \<times> Generator" where
  "generateSObjectsConfig order g =
     (let typeContents = generateFileHeader
      in case readFile g of
           (Inl e, g1) \<Rightarrow> (Some e, g1)
         | (Inr cfg, g1) \<Rightarrow>
             (let promises = map (promiseOf g1 cfg) (sobjects cfg);
                  g2 = g1\<lparr>unmappedChildRelationships :=
                            foldl (settle g1 cfg) (unmappedChildRelationships g1) order\<rparr>
              in if list_ex (\<lambda>p. p = Rejected) promises then (Some DescribeError, g2)
                 else
                   (let typeContents = foldl (\<lambda>tc p. tc @ promiseToString p) typeContents promises;
                        typeContents = typeContents @ ''\<newline>// unmapped types:'';
                        typeContents = foldl (\<lambda>tc unmappedType. tc @ unmappedLine unmappedType)
                                         typeContents (sort (unmappedChildRelationships g2));
                        filePath = join (flags_outputdir g2) ''sobjects.ts'';
                        g3 = writeFile filePath typeContents g2
                    in (None, g3\<lparr>createdFiles := createdFiles g3 @ [filePath]\<rparr>))))"

subsection \<open>\<^verbatim>\<open>generate\<close> (lines 52 to 65)\<close>

definition generate :: "nat list \<Rightarrow> Generator \<Rightarrow> error option \<times> Generator" where
  "generate order g =
     (case createBaseSObjectType g of
        (Some e, g1) \<Rightarrow> (Some e, g1)
      | (None, g1) \<Rightarrow>
          (case createSalesforceFieldTypes g1 of
             (Some e, g2) \<Rightarrow> (Some e, g2)
           | (None, g2) \<Rightarrow>
               if truthy (flags_sobject g2) \<and> truthy (flags_config g2) then
                 (None, g2\<lparr>stderr := stderr g2 @ ''Please provide only -s or -c, not both''\<rparr>)
               else if truthy (flags_sobject g2) then generateSObject g2
               else if truthy (flags_config g2) then generateSObjectsConfig order g2
               else (None, g2\<lparr>stderr := stderr g2 @ ''Please provide a -s or -c''\<rparr>)))"

section \<open>Notions used in the statements\<close>

text \<open>
  The known entity set of the specification: the names of the list \<^verbatim>\<open>sObjects\<close>, and
  no name at all when the list is absent.
\<close>

definition knownSet :: "string list option \<Rightarrow> string set" where
  "knownSet sObjects = (case sObjects of None \<Rightarrow> {} | Some xs \<Rightarrow> set xs)"

text \<open>
  The union type expression of the specification: the names joined by a bar, in the
  order given.
\<close>

fun union_type :: "string list \<Rightarrow> string" where
  "union_type [] = []"
| "union_type [x] = x"
| "union_type (x # y # ys) = x @ '' | '' @ union_type (y # ys)"

text \<open>
  A child relationship that makes its child entity an unmapped one: the relationship has
  a name and the test for a known object fails for the child.
\<close>

definition unmappedChild :: "string list option \<Rightarrow> ChildRelationship \<Rightarrow> bool" where
  "unmappedChild sObjects child \<longleftrightarrow>
     \<not> known sObjects (childSObject child) \<and> truthy (childRelationshipName child)"

text \<open>
  A child relationship on the path of the caller's list \<^verbatim>\<open>specialChildrenToMap\<close>: the
  test for a known object succeeds for the child, the relationship has no name and it
  has no junction targets. \<open>bareLine\<close> is the property that path may append.
\<close>

definition bareCandidate :: "string list option \<Rightarrow> ChildRelationship \<Rightarrow> bool" where
  "bareCandidate sObjects child \<longleftrightarrow>
     known sObjects (childSObject child) \<and> \<not> truthy (childRelationshipName child) \<and>
     junctionReferenceTo child = []"

definition bareLine :: "string \<Rightarrow> string" where
  "bareLine c = ''\<newline>  '' @ c @ '': '' @ c @ '';''"

section \<open>Example inputs\<close>

definition ex_owner :: Field where
  "ex_owner =
     \<lparr>name = ''OwnerId'', ftype = ''reference'', calculated = False,
      referenceTo = [''Group'', ''User'', ''Contact''], relationshipName = Some ''Owner''\<rparr>"

definition ex_picklist :: Field where
  "ex_picklist =
     \<lparr>name = ''Rating'', ftype = ''picklist'', calculated = False, referenceTo = [],
      relationshipName = None\<rparr>"

definition ex_account :: DescribeSObjectResult where
  "ex_account =
     \<lparr>fieldList =
        [\<lparr>name = ''Id'', ftype = ''id'', calculated = False, referenceTo = [],
          relationshipName = None\<rparr>,
         ex_owner,
         \<lparr>name = ''Total'', ftype = ''currency'', calculated = True, referenceTo = [],
          relationshipName = None\<rparr>],
      childRelationships =
        [\<lparr>childSObject = ''Contact'', childRelationshipName = Some ''Contacts'',
          junctionReferenceTo = []\<rparr>,
         \<lparr>childSObject = ''Case'', childRelationshipName = Some ''Cases'',
          junctionReferenceTo = []\<rparr>,
         \<lparr>childSObject = ''Note'', childRelationshipName = None,
          junctionReferenceTo = []\<rparr>]\<rparr>"

definition ex_contact :: DescribeSObjectResult where
  "ex_contact =
     \<lparr>fieldList =
        [\<lparr>name = ''Phone'', ftype = ''phone'', calculated = False, referenceTo = [],
          relationshipName = None\<rparr>],
      childRelationships =
        [\<lparr>childSObject = ''Case'', childRelationshipName = Some ''Cases'',
          junctionReferenceTo = []\<rparr>,
         \<lparr>childSObject = ''Asset'', childRelationshipName = Some ''Assets'',
          junctionReferenceTo = []\<rparr>]\<rparr>"

definition ex_describe :: "string \<Rightarrow> DescribeSObjectResult option" where
  "ex_describe s =
     (if s = ''Account'' then Some ex_account
      else if s = ''Contact'' then Some ex_contact
      else None)"

definition ex_config :: IConfig where
  "ex_config = \<lparr>sobjects = [''Account'', ''Contact''], specialChildrenToMap = Some []\<rparr>"

definition ex_batch :: Generator where
  "ex_batch =
     \<lparr>flags_sobject = None, flags_config = Some ''config.json'', flags_outputdir = ''out'',
      createdFiles = [], unmappedChildRelationships = [],
      connection_describe = ex_describe,
      fs_readdir = (\<lambda>dir. True),
      fs_config = (\<lambda>file. Parsed ex_config),
      fs_written = [], stderr = []\<rparr>"

definition ex_note :: ChildRelationship where
  "ex_note = \<lparr>childSObject = ''Note'', childRelationshipName = None, junctionReferenceTo = []\<rparr>"

definition ex_notes :: DescribeSObjectResult where
  "ex_notes = \<lparr>fieldList = [], childRelationships = [ex_note, ex_note]\<rparr>"

definition ex_single :: Generator where
  "ex_single =
     \<lparr>flags_sobject = Some ''Account'', flags_config = None, flags_outputdir = ''out'',
      createdFiles = [], unmappedChildRelationships = [],
      connection_describe = ex_describe,
      fs_readdir = (\<lambda>dir. True),
      fs_config = (\<lambda>file. Unreadable),
      fs_written = [], stderr = []\<rparr>"

definition ex_both :: Generator where
  "ex_both = ex_single\<lparr>flags_config := Some ''config.json''\<rparr>"

definition ex_neither :: Generator where
  "ex_neither = ex_single\<lparr>flags_sobject := None\<rparr>"

section \<open>Theorems\<close>

subsection \<open>The scalar type mapping\<close>

lemma fieldContents_scalar:
  assumes "name field \<noteq> ''Id''"
  shows "\<exists>rest. fieldContents sObjects tc field =
       tc @ ''\<newline>  '' @ name field @ '': '' @ typeName (ftype field) @ '';'' @ rest"
proof -
  let ?line = "tc @ ''\<newline>  '' @ name field @ '': '' @ typeName (ftype field) @ '';''"
  let ?calc = "if calculated field then '' //calculated'' else []"
  let ?ref = "if ftype field = ''reference'' \<and> truthy (refTypeNameOf sObjects field)
              then ''\<newline>  '' @ interpolate (relationshipName field) @ '': '' @
                   interpolate (refTypeNameOf sObjects field) @ '';''
              else []"
  have "fieldContents sObjects tc field = ?line @ (?calc @ ?ref)"
    using assms by (simp add: fieldContents_def Let_def)
  then have "fieldContents sObjects tc field =
       tc @ ''\<newline>  '' @ name field @ '': '' @ typeName (ftype field) @ '';'' @ (?calc @ ?ref)"
    by (simp only: append_assoc)
  then show ?thesis by (rule exI)
qed

text \<open>
  C1. The scalar type mapping is a total function of the type tag and returns the
  specified expression for every tag of the table: boolean gives boolean; int, double
  and currency give number; date and datetime give the nullable date string; phone gives
  the phone string alias; string and textarea give string; reference gives the
  identifier string; every other tag gives string followed by the original tag as a
  comment. There is no error value in the result type. Every field but the identity
  field gets a property of the type the mapping gives for its tag.
\<close>

theorem typeName_table:
  "typeName ''boolean'' = ''boolean'' \<and>
   typeName ''int'' = ''number'' \<and>
   typeName ''double'' = ''number'' \<and>
   typeName ''currency'' = ''number'' \<and>
   typeName ''date'' = ''DateString | null'' \<and>
   typeName ''datetime'' = ''DateString | null'' \<and>
   typeName ''phone'' = ''PhoneString'' \<and>
   typeName ''string'' = ''string'' \<and>
   typeName ''textarea'' = ''string'' \<and>
   typeName ''reference'' = ''ID'' \<and>
   (t \<notin> {''boolean'', ''int'', ''double'', ''currency'', ''date'', ''datetime'',
           ''phone'', ''string'', ''textarea'', ''reference''}
      \<longrightarrow> typeName t = ''string //'' @ t) \<and>
   (name field \<noteq> ''Id'' \<longrightarrow>
      (\<exists>rest. fieldContents sObjects tc field =
         tc @ ''\<newline>  '' @ name field @ '': '' @ typeName (ftype field) @ '';'' @ rest))"
proof -
  have f: "name field \<noteq> ''Id'' \<longrightarrow>
      (\<exists>rest. fieldContents sObjects tc field =
         tc @ ''\<newline>  '' @ name field @ '': '' @ typeName (ftype field) @ '';'' @ rest)"
    using fieldContents_scalar [of field sObjects tc] by (rule impI)
  have t: "typeName ''boolean'' = ''boolean'' \<and>
   typeName ''int'' = ''number'' \<and>
   typeName ''double'' = ''number'' \<and>
   typeName ''currency'' = ''number'' \<and>
   typeName ''date'' = ''DateString | null'' \<and>
   typeName ''datetime'' = ''DateString | null'' \<and>
   typeName ''phone'' = ''PhoneString'' \<and>
   typeName ''string'' = ''string'' \<and>
   typeName ''textarea'' = ''string'' \<and>
   typeName ''reference'' = ''ID'' \<and>
   (t \<notin> {''boolean'', ''int'', ''double'', ''currency'', ''date'', ''datetime'',
           ''phone'', ''string'', ''textarea'', ''reference''}
      \<longrightarrow> typeName t = ''string //'' @ t)"
    by (simp add: typeName_def)
  from t f show ?thesis
    by (elim conjE, intro conjI)
qed

theorem typeName_table_witness:
  "''picklist'' \<notin> {''boolean'', ''int'', ''double'', ''currency'', ''date'', ''datetime'',
           ''phone'', ''string'', ''textarea'', ''reference''} \<and>
   typeName ''picklist'' = ''string //picklist'' \<and>
   name ex_picklist \<noteq> ''Id'' \<and>
   fieldContents None [] ex_picklist = ''\<newline>  Rating: string //picklist;''"
proof -
  have e: "fieldContents None [] ex_picklist = ''\<newline>  Rating: string //picklist;''"
    by code_simp
  show ?thesis
    using typeName_table [of "''picklist''" ex_picklist None "[]"] e
    by (simp add: ex_picklist_def)
qed

subsection \<open>Reference fields\<close>

lemma find_eq: "find (\<lambda>f. f = r) xs = (if r \<in> set xs then Some r else None)"
  by (induction xs) auto

lemma known_iff: "known sObjects r \<longleftrightarrow> r \<in> knownSet sObjects \<and> r \<noteq> []"
  by (cases sObjects) (auto simp: known_def knownSet_def find_eq truthy_def)

lemma union_type_snoc: "ts \<noteq> [] \<Longrightarrow> union_type (ts @ [r]) = union_type ts @ '' | '' @ r"
  by (induction ts rule: union_type.induct) auto

lemma union_type_nonempty: "ts \<noteq> [] \<Longrightarrow> [] \<notin> set ts \<Longrightarrow> union_type ts \<noteq> []"
  by (induction ts rule: union_type.induct) auto

lemma foldl_addReference:
  "foldl (addReference sObjects) None rs =
     (let ts = filter (known sObjects) rs in if ts = [] then None else Some (union_type ts))"
proof (induction rs rule: rev_induct)
  case Nil
  then show ?case by simp
next
  case (snoc r rs)
  have ne: "[] \<notin> set (filter (known sObjects) rs)"
    by (auto simp: known_iff)
  show ?case
  proof (cases "known sObjects r")
    case True
    then show ?thesis
      using snoc ne
      by (auto simp: addReference_def Let_def truthy_def interpolate_def union_type_snoc
            union_type_nonempty)
  next
    case False
    then show ?thesis
      using snoc by (simp add: addReference_def Let_def)
  qed
qed

lemma refTypeNameOf_eq:
  "refTypeNameOf sObjects field =
     (let ts = filter (known sObjects) (referenceTo field)
      in if ts = [] then None else Some (union_type ts))"
  by (simp add: refTypeNameOf_def foldl_addReference)

lemma truthy_refTypeNameOf:
  "truthy (refTypeNameOf sObjects field) \<longleftrightarrow> filter (known sObjects) (referenceTo field) \<noteq> []"
proof -
  have "[] \<notin> set (filter (known sObjects) (referenceTo field))"
    by (auto simp: known_iff)
  then have "filter (known sObjects) (referenceTo field) \<noteq> [] \<Longrightarrow>
      union_type (filter (known sObjects) (referenceTo field)) \<noteq> []"
    by (rule union_type_nonempty [rotated])
  then show ?thesis
    by (auto simp: refTypeNameOf_eq Let_def truthy_def)
qed

lemma fieldContents_reference:
  assumes "ftype field = ''reference''" and "name field \<noteq> ''Id''"
  shows "fieldContents sObjects typeContents field =
           typeContents @ ''\<newline>  '' @ name field @ '': ID;'' @
           (if calculated field then '' //calculated'' else []) @
           (let ts = filter (known sObjects) (referenceTo field)
            in if ts = [] then []
               else ''\<newline>  '' @ interpolate (relationshipName field) @ '': '' @
                    union_type ts @ '';'')"
  using assms
  by (simp add: fieldContents_def Let_def typeName_def truthy_refTypeNameOf)
     (simp add: refTypeNameOf_eq interpolate_def Let_def)

text \<open>
  C2. A reference field that is not the identity field, with a non-empty
  \<^verbatim>\<open>relationshipName\<close> and reference targets that are names (not the empty string),
  appends to the text: its scalar property of type \<open>ID\<close> (with the calculated mark when
  the field is calculated), and then a relationship property whose type is the union of
  exactly the targets that are in the known entity set, in the order of the targets on
  the field. With exactly one known target the type is that name alone; with none,
  there is no relationship property and the scalar property is still there.
\<close>

theorem reference_union:
  assumes "ftype field = ''reference''"
    and "name field \<noteq> ''Id''"
    and "relationshipName field = Some rel"
    and "rel \<noteq> []"
    and "[] \<notin> set (referenceTo field)"
  shows "fieldContents sObjects typeContents field =
           typeContents @ ''\<newline>  '' @ name field @ '': ID;'' @
           (if calculated field then '' //calculated'' else []) @
           (let ts = filter (\<lambda>r. r \<in> knownSet sObjects) (referenceTo field)
            in if ts = [] then []
               else if length ts = 1 then ''\<newline>  '' @ rel @ '': '' @ hd ts @ '';''
               else ''\<newline>  '' @ rel @ '': '' @ union_type ts @ '';'')"
proof -
  have f: "filter (known sObjects) (referenceTo field)
             = filter (\<lambda>r. r \<in> knownSet sObjects) (referenceTo field)"
    using assms(5) by (intro filter_cong) (auto simp: known_iff)
  have one: "length ts = 1 \<Longrightarrow> union_type ts = hd ts" for ts
    by (cases ts rule: union_type.cases) auto
  show ?thesis
    unfolding fieldContents_reference [OF assms(1,2)] f
    using assms(3) by (simp add: Let_def interpolate_def one)
qed

theorem reference_union_witness:
  "ftype ex_owner = ''reference'' \<and> name ex_owner \<noteq> ''Id'' \<and>
   relationshipName ex_owner = Some ''Owner'' \<and> [] \<notin> set (referenceTo ex_owner) \<and>
   fieldContents (Some [''Account'', ''Contact'', ''User'']) [] ex_owner =
     ''\<newline>  OwnerId: ID;\<newline>  Owner: User | Contact;'' \<and>
   fieldContents (Some [''Account'', ''User'']) [] ex_owner =
     ''\<newline>  OwnerId: ID;\<newline>  Owner: User;'' \<and>
   fieldContents (Some [''Account'']) [] ex_owner = ''\<newline>  OwnerId: ID;'' \<and>
   fieldContents None [] ex_owner = ''\<newline>  OwnerId: ID;''"
  using reference_union [of ex_owner "''Owner''" "Some [''Account'', ''Contact'', ''User'']" "[]"]
    reference_union [of ex_owner "''Owner''" "Some [''Account'', ''User'']" "[]"]
    reference_union [of ex_owner "''Owner''" "Some [''Account'']" "[]"]
    reference_union [of ex_owner "''Owner''" "None" "[]"]
  by (simp add: ex_owner_def knownSet_def)

subsection \<open>Child relationships to unmapped entities and the batch document\<close>

lemma set_set_add: "set (set_add x s) = insert x (set s)"
  by (auto simp: set_add_def)

lemma distinct_set_add: "distinct s \<Longrightarrow> distinct (set_add x s)"
  by (simp add: set_add_def)

lemma childContents_unmapped:
  "l_unmapped (childContents sObjects st child) =
     (if unmappedChild sObjects child then set_add (childSObject child) (l_unmapped st)
      else l_unmapped st)"
  by (simp add: childContents_def unmappedChild_def Let_def)

lemma foldl_childContents_unmapped:
  "l_unmapped (foldl (childContents sObjects) st children) =
     foldl (\<lambda>s c. set_add c s) (l_unmapped st)
       (map childSObject (filter (unmappedChild sObjects) children))"
  by (induction children arbitrary: st) (simp_all add: childContents_unmapped)

lemma set_foldl_set_add: "set (foldl (\<lambda>s c. set_add c s) s cs) = set s \<union> set cs"
  by (induction cs arbitrary: s) (auto simp: set_set_add)

lemma distinct_foldl_set_add: "distinct s \<Longrightarrow> distinct (foldl (\<lambda>s c. set_add c s) s cs)"
  by (induction cs arbitrary: s) (simp_all add: distinct_set_add)

lemma snd_buildTypeContents:
  "snd (buildTypeContents d objectName sObjects allow unmappedSet) =
     foldl (\<lambda>s c. set_add c s) unmappedSet
       (map childSObject (filter (unmappedChild sObjects) (childRelationships d)))"
  by (simp add: buildTypeContents_def Let_def foldl_childContents_unmapped)

lemma settle_eq:
  "settle g cfg unmappedSet i =
     (if i < length (sobjects cfg)
      then (case connection_describe g (sobjects cfg ! i) of
              None \<Rightarrow> unmappedSet
            | Some d \<Rightarrow>
                foldl (\<lambda>s c. set_add c s) unmappedSet
                  (map childSObject
                     (filter (unmappedChild (Some (sobjects cfg))) (childRelationships d))))
      else unmappedSet)"
  by (simp add: settle_def generateSObjectTypeContents_def case_prod_beta
        snd_buildTypeContents split: option.splits)

lemma set_settle:
  "set (settle g cfg unmappedSet i) =
     set unmappedSet \<union>
     (if i < length (sobjects cfg)
      then (case connection_describe g (sobjects cfg ! i) of
              None \<Rightarrow> {}
            | Some d \<Rightarrow> childSObject ` {child \<in> set (childRelationships d).
                                         unmappedChild (Some (sobjects cfg)) child})
      else {})"
  by (auto simp: settle_eq set_foldl_set_add split: option.splits)

lemma distinct_settle: "distinct unmappedSet \<Longrightarrow> distinct (settle g cfg unmappedSet i)"
  by (simp add: settle_eq distinct_foldl_set_add split: option.splits)

lemma distinct_foldl_settle:
  "distinct unmappedSet \<Longrightarrow> distinct (foldl (settle g cfg) unmappedSet order)"
  by (induction order arbitrary: unmappedSet) (simp_all add: distinct_settle)

lemma settle_mono: "set unmappedSet \<subseteq> set (settle g cfg unmappedSet i)"
  by (simp add: set_settle)

lemma foldl_settle_mono: "set unmappedSet \<subseteq> set (foldl (settle g cfg) unmappedSet order)"
proof (induction order arbitrary: unmappedSet)
  case Nil
  then show ?case by simp
next
  case (Cons i order)
  show ?case
    using settle_mono [of unmappedSet g cfg i] Cons [of "settle g cfg unmappedSet i"] by auto
qed

lemma foldl_settle_member:
  assumes "i \<in> set order" and "i < length (sobjects cfg)"
    and "connection_describe g (sobjects cfg ! i) = Some d"
    and "child \<in> set (childRelationships d)"
    and "unmappedChild (Some (sobjects cfg)) child"
  shows "childSObject child \<in> set (foldl (settle g cfg) unmappedSet order)"
  using assms(1)
proof (induction order arbitrary: unmappedSet)
  case Nil
  then show ?case by simp
next
  case (Cons j order)
  show ?case
  proof (cases "j = i")
    case True
    have "childSObject child \<in> set (settle g cfg unmappedSet i)"
      using assms(2-5) by (auto simp: set_settle)
    then show ?thesis
      using True foldl_settle_mono [of "settle g cfg unmappedSet i" g cfg order] by auto
  next
    case False
    then show ?thesis using Cons by auto
  qed
qed

lemma count_list_distinct: "distinct xs \<Longrightarrow> x \<in> set xs \<Longrightarrow> count_list xs x = 1"
  by (induction xs) auto

lemma foldl_append_text: "foldl (\<lambda>tc x. tc @ f x) tc xs = tc @ concat (map f xs)"
  by (induction xs arbitrary: tc) simp_all

lemma readFile_Parsed:
  "flags_config g = Some file \<Longrightarrow> fs_config g file = Parsed cfg \<Longrightarrow> readFile g = (Inr cfg, g)"
  by (simp add: readFile_def)

lemma promiseOf_Rejected:
  "promiseOf g cfg s = Rejected \<longleftrightarrow> connection_describe g s = None"
  by (simp add: promiseOf_def generateSObjectTypeContents_def split: option.splits prod.splits)

lemma generateSObjectsConfig_ok:
  assumes "flags_config g = Some file" and "fs_config g file = Parsed cfg"
    and "list_all (\<lambda>s. connection_describe g s \<noteq> None) (sobjects cfg)"
  shows "generateSObjectsConfig order g =
     (None,
      g\<lparr>unmappedChildRelationships := foldl (settle g cfg) (unmappedChildRelationships g) order,
        fs_written := fs_written g @
          [(join (flags_outputdir g) ''sobjects.ts'',
            generateFileHeader @
            concat (map (\<lambda>s. promiseToString (promiseOf g cfg s)) (sobjects cfg)) @
            ''\<newline>// unmapped types:'' @
            concat (map unmappedLine
              (sort (foldl (settle g cfg) (unmappedChildRelationships g) order))))],
        createdFiles := createdFiles g @ [join (flags_outputdir g) ''sobjects.ts'']\<rparr>)"
proof -
  have "promiseOf g cfg s \<noteq> Rejected" if "s \<in> set (sobjects cfg)" for s
    using that assms(3) by (simp add: promiseOf_Rejected list_all_iff)
  then have "\<forall>p \<in> set (map (promiseOf g cfg) (sobjects cfg)). p \<noteq> Rejected"
    by auto
  then have "\<not> list_ex (\<lambda>p. p = Rejected) (map (promiseOf g cfg) (sobjects cfg))"
    unfolding list_ex_iff by blast
  then show ?thesis
    by (simp add: generateSObjectsConfig_def readFile_Parsed [OF assms(1,2)] Let_def
          foldl_append_text writeFile_def map_map comp_def)
qed

text \<open>
  C3. In a batch run whose describe requests all succeed, whatever the order in which
  they complete: a child relationship with a non-empty \<^verbatim>\<open>relationshipName\<close> whose
  child entity \<open>X\<close> is not among the configured names makes the builder append the
  line \<open>relationshipName: ChildRecords<X, 'X'>;\<close> to the block and add \<open>X\<close> to the
  set of unmapped types (unless it is a member already); the file written at the end
  closes with the section of unmapped types, one line \<open>type X = any;\<close> per member of
  the set, in ascending lexicographic order, and the child entity is there exactly
  once.
\<close>

theorem unmapped_child_stub:
  assumes "flags_config g = Some file" and "fs_config g file = Parsed cfg"
    and "list_all (\<lambda>s. connection_describe g s \<noteq> None) (sobjects cfg)"
    and "distinct order" and "set order = {0 ..< length (sobjects cfg)}"
    and "distinct (unmappedChildRelationships g)"
    and "i < length (sobjects cfg)"
    and "connection_describe g (sobjects cfg ! i) = Some d"
    and "child \<in> set (childRelationships d)"
    and "childRelationshipName child = Some rel" and "rel \<noteq> []"
    and "childSObject child \<notin> set (sobjects cfg)"
  shows "childContents (Some (sobjects cfg)) st child =
           st\<lparr>l_unmapped :=
                (if childSObject child \<in> set (l_unmapped st) then l_unmapped st
                 else l_unmapped st @ [childSObject child]),
              l_typeContents := l_typeContents st @
                ''\<newline>  '' @ rel @ '': ChildRecords<'' @ childSObject child @ '', '' @
                [CHR 0x27] @ childSObject child @ [CHR 0x27] @ ''>;''\<rparr> \<and>
         (let r = generateSObjectsConfig order g;
              names = sort (unmappedChildRelationships (snd r))
          in fst r = None \<and>
             fs_written (snd r) = fs_written g @
               [(join (flags_outputdir g) ''sobjects.ts'',
                 generateFileHeader @
                 concat (map (\<lambda>s. promiseToString (promiseOf g cfg s)) (sobjects cfg)) @
                 ''\<newline>// unmapped types:'' @
                 concat (map (\<lambda>unmappedType. ''\<newline>type '' @ unmappedType @ '' = any; '') names))] \<and>
             sorted names \<and> distinct names \<and>
             count_list names (childSObject child) = 1)"
proof -
  have nk: "\<not> known (Some (sobjects cfg)) (childSObject child)"
    using assms(12) by (simp add: known_iff knownSet_def)
  have tr: "truthy (childRelationshipName child)"
    using assms(10,11) by (simp add: truthy_def)
  have step: "childContents (Some (sobjects cfg)) st child =
           st\<lparr>l_unmapped :=
                (if childSObject child \<in> set (l_unmapped st) then l_unmapped st
                 else l_unmapped st @ [childSObject child]),
              l_typeContents := l_typeContents st @
                ''\<newline>  '' @ rel @ '': ChildRecords<'' @ childSObject child @ '', '' @
                [CHR 0x27] @ childSObject child @ [CHR 0x27] @ ''>;''\<rparr>"
    using nk tr assms(10)
    by (simp add: childContents_def Let_def interpolate_def childRecordsLine_def SQ_def
          set_add_def)
  let ?U = "foldl (settle g cfg) (unmappedChildRelationships g) order"
  have um: "unmappedChild (Some (sobjects cfg)) child"
    using nk tr by (simp add: unmappedChild_def)
  have "i \<in> set order"
    using assms(5,7) by simp
  then have mem: "childSObject child \<in> set ?U"
    using assms(7,8,9) um by (rule foldl_settle_member)
  have dist: "distinct ?U"
    using assms(6) by (rule distinct_foldl_settle)
  have cnt: "count_list (sort ?U) (childSObject child) = 1"
    using dist mem by (simp add: count_list_distinct)
  have lines: "map unmappedLine (sort ?U) =
      map (\<lambda>unmappedType. ''\<newline>type '' @ unmappedType @ '' = any; '') (sort ?U)"
    by (rule map_cong) (simp_all add: unmappedLine_def)
  have batch: "(let r = generateSObjectsConfig order g;
              names = sort (unmappedChildRelationships (snd r))
          in fst r = None \<and>
             fs_written (snd r) = fs_written g @
               [(join (flags_outputdir g) ''sobjects.ts'',
                 generateFileHeader @
                 concat (map (\<lambda>s. promiseToString (promiseOf g cfg s)) (sobjects cfg)) @
                 ''\<newline>// unmapped types:'' @
                 concat (map (\<lambda>unmappedType. ''\<newline>type '' @ unmappedType @ '' = any; '') names))] \<and>
             sorted names \<and> distinct names \<and>
             count_list names (childSObject child) = 1)"
    using cnt dist
    by (simp add: generateSObjectsConfig_ok [OF assms(1,2,3)] Let_def lines)
  from step batch show ?thesis by (rule conjI)
qed

theorem unmapped_child_stub_witness:
  "flags_config ex_batch = Some ''config.json'' \<and>
   fs_config ex_batch ''config.json'' = Parsed ex_config \<and>
   list_all (\<lambda>s. connection_describe ex_batch s \<noteq> None) (sobjects ex_config) \<and>
   distinct [1, 0 :: nat] \<and> set [1, 0 :: nat] = {0 ..< length (sobjects ex_config)} \<and>
   connection_describe ex_batch (sobjects ex_config ! 0) = Some ex_account \<and>
   childRelationships ex_account ! 1 \<in> set (childRelationships ex_account) \<and>
   childRelationships ex_account ! 1 =
     \<lparr>childSObject = ''Case'', childRelationshipName = Some ''Cases'',
      junctionReferenceTo = []\<rparr> \<and>
   ''Case'' \<notin> set (sobjects ex_config) \<and>
   childContents (Some (sobjects ex_config))
     \<lparr>l_typeContents = ''{'', l_clone = [], l_unmapped = [''Asset'']\<rparr>
     (childRelationships ex_account ! 1) =
     \<lparr>l_typeContents =
        ''{'' @ ''\<newline>  Cases: ChildRecords<Case, '' @ [CHR 0x27] @ ''Case'' @ [CHR 0x27] @ ''>;'',
      l_clone = [], l_unmapped = [''Asset'', ''Case'']\<rparr> \<and>
   buildTypeContents ex_account ''Account'' (Some (sobjects ex_config))
     (specialChildrenToMap ex_config) [] =
     (''\<newline>\<newline>export interface Account extends SObjectAttribute<'' @ [CHR 0x27] @ ''Account'' @
        [CHR 0x27] @ ''> {'' @
      ''\<newline>  OwnerId: ID;'' @
      ''\<newline>  Owner: Contact;'' @
      ''\<newline>  Total: number; //calculated'' @
      ''\<newline>  Contacts: ChildRecords<Contact, '' @ [CHR 0x27] @ ''Contact'' @ [CHR 0x27] @ ''>;'' @
      ''\<newline>  Cases: ChildRecords<Case, '' @ [CHR 0x27] @ ''Case'' @ [CHR 0x27] @ ''>;'' @
      ''\<newline>};\<newline>'',
      [''Case'']) \<and>
   sort (unmappedChildRelationships (snd (generateSObjectsConfig [1, 0] ex_batch)))
     = [''Asset'', ''Case''] \<and>
   count_list (sort (unmappedChildRelationships (snd (generateSObjectsConfig [1, 0] ex_batch))))
     ''Case'' = 1 \<and>
   fs_written (snd (generateSObjectsConfig [1, 0] ex_batch)) =
     [(Join ''out'' ''sobjects.ts'',
       generateFileHeader @ ''[object Promise][object Promise]'' @
       ''\<newline>// unmapped types:\<newline>type Asset = any; \<newline>type Case = any; '')]"
proof -
  have h1: "flags_config ex_batch = Some ''config.json''"
    by (simp add: ex_batch_def)
  have h2: "fs_config ex_batch ''config.json'' = Parsed ex_config"
    by (simp add: ex_batch_def)
  have h3: "list_all (\<lambda>s. connection_describe ex_batch s \<noteq> None) (sobjects ex_config)"
    by (simp add: ex_batch_def ex_config_def ex_describe_def)
  have h4: "distinct [1, 0 :: nat]"
    by simp
  have h5: "set [1, 0 :: nat] = {0 ..< length (sobjects ex_config)}"
    by (auto simp: ex_config_def)
  have h6: "distinct (unmappedChildRelationships ex_batch)"
    by (simp add: ex_batch_def)
  have h7: "0 < length (sobjects ex_config)"
    by (simp add: ex_config_def)
  have h8: "connection_describe ex_batch (sobjects ex_config ! 0) = Some ex_account"
    by (simp add: ex_batch_def ex_config_def ex_describe_def)
  have h9: "childRelationships ex_account ! 1 \<in> set (childRelationships ex_account)"
    by (simp add: ex_account_def)
  have h10: "childRelationshipName (childRelationships ex_account ! 1) = Some ''Cases''"
    by (simp add: ex_account_def)
  have h11: "''Cases'' \<noteq> []"
    by simp
  have h12: "childSObject (childRelationships ex_account ! 1) \<notin> set (sobjects ex_config)"
    by (simp add: ex_account_def ex_config_def)
  note t = unmapped_child_stub [OF h1 h2 h3 h4 h5 h6 h7 h8 h9 h10 h11 h12]
  have c: "childRelationships ex_account ! 1 =
     \<lparr>childSObject = ''Case'', childRelationshipName = Some ''Cases'',
      junctionReferenceTo = []\<rparr>"
    by (simp add: ex_account_def)
  have e0: "childContents (Some (sobjects ex_config))
     \<lparr>l_typeContents = ''{'', l_clone = [], l_unmapped = [''Asset'']\<rparr>
     (childRelationships ex_account ! 1) =
     \<lparr>l_typeContents =
        ''{'' @ ''\<newline>  Cases: ChildRecords<Case, '' @ [CHR 0x27] @ ''Case'' @ [CHR 0x27] @ ''>;'',
      l_clone = [], l_unmapped = [''Asset'', ''Case'']\<rparr>"
    using t [of "\<lparr>l_typeContents = ''{'', l_clone = [], l_unmapped = [''Asset'']\<rparr>",
        THEN conjunct1]
    unfolding c by simp
  have e1: "sort (unmappedChildRelationships (snd (generateSObjectsConfig [1, 0] ex_batch)))
     = [''Asset'', ''Case'']"
    by code_simp
  have e2: "fs_written (snd (generateSObjectsConfig [1, 0] ex_batch)) =
     [(Join ''out'' ''sobjects.ts'',
       generateFileHeader @ ''[object Promise][object Promise]'' @
       ''\<newline>// unmapped types:\<newline>type Asset = any; \<newline>type Case = any; '')]"
    by code_simp
  have e3: "buildTypeContents ex_account ''Account'' (Some (sobjects ex_config))
     (specialChildrenToMap ex_config) [] =
     (''\<newline>\<newline>export interface Account extends SObjectAttribute<'' @ [CHR 0x27] @ ''Account'' @
        [CHR 0x27] @ ''> {'' @
      ''\<newline>  OwnerId: ID;'' @
      ''\<newline>  Owner: Contact;'' @
      ''\<newline>  Total: number; //calculated'' @
      ''\<newline>  Contacts: ChildRecords<Contact, '' @ [CHR 0x27] @ ''Contact'' @ [CHR 0x27] @ ''>;'' @
      ''\<newline>  Cases: ChildRecords<Case, '' @ [CHR 0x27] @ ''Case'' @ [CHR 0x27] @ ''>;'' @
      ''\<newline>};\<newline>'',
      [''Case''])"
    by code_simp
  show ?thesis
    using t h1 h2 h3 h5 h8 h9 h12 c e0 e1 e2 e3 by (simp add: Let_def)
qed

subsection \<open>Unnamed child relationships and the caller's list\<close>

lemma findIndex_neg: "findIndex p xs < 0 \<longleftrightarrow> (\<forall>x \<in> set xs. \<not> p x)"
  by (induction xs) (auto simp: Let_def)

lemma findIndex_ge: "- 1 \<le> findIndex p xs"
  by (induction xs) (auto simp: Let_def)

lemma findIndex_pos:
  "0 < findIndex (\<lambda>f. f = c) xs \<longleftrightarrow> xs \<noteq> [] \<and> hd xs \<noteq> c \<and> c \<in> set (tl xs)"
proof (cases xs)
  case Nil
  then show ?thesis by simp
next
  case (Cons x rest)
  have "0 \<le> findIndex (\<lambda>f. f = c) rest \<longleftrightarrow> c \<in> set rest"
    using findIndex_neg [of "\<lambda>f. f = c" rest] by auto
  then show ?thesis
    using Cons by (auto simp: Let_def)
qed

lemma splice1_findIndex:
  "c \<in> set xs \<Longrightarrow> splice1 (nat (findIndex (\<lambda>f. f = c) xs)) xs = remove1 c xs"
proof (induction xs)
  case Nil
  then show ?case by simp
next
  case (Cons x xs)
  show ?case
  proof (cases "x = c")
    case True
    then show ?thesis by (simp add: splice1_def)
  next
    case False
    then have in_xs: "c \<in> set xs" using Cons.prems by simp
    then have nn: "0 \<le> findIndex (\<lambda>f. f = c) xs"
      using findIndex_neg [of "\<lambda>f. f = c" xs] by auto
    have "splice1 (nat (findIndex (\<lambda>f. f = c) xs + 1)) (x # xs)
            = x # splice1 (nat (findIndex (\<lambda>f. f = c) xs)) xs"
      using nn by (simp add: splice1_def nat_add_distrib)
    then show ?thesis
      using False nn Cons.IH [OF in_xs] by (simp add: Let_def)
  qed
qed

lemma childContents_bare:
  assumes "bareCandidate sObjects child"
  shows "childContents sObjects st child =
           (if l_clone st \<noteq> [] \<and> hd (l_clone st) \<noteq> childSObject child \<and>
               childSObject child \<in> set (tl (l_clone st))
            then st\<lparr>l_clone := hd (l_clone st) # remove1 (childSObject child) (tl (l_clone st)),
                    l_typeContents := l_typeContents st @ bareLine (childSObject child)\<rparr>
            else st)"
proof (cases "0 < findIndex (\<lambda>f. f = childSObject child) (l_clone st)")
  case True
  then have p: "l_clone st \<noteq> []" "hd (l_clone st) \<noteq> childSObject child"
      "childSObject child \<in> set (tl (l_clone st))"
    by (simp_all add: findIndex_pos)
  then have "childSObject child \<in> set (l_clone st)"
    by (cases "l_clone st") auto
  then have "splice1 (nat (findIndex (\<lambda>f. f = childSObject child) (l_clone st))) (l_clone st)
               = remove1 (childSObject child) (l_clone st)"
    by (rule splice1_findIndex)
  also have "\<dots> = hd (l_clone st) # remove1 (childSObject child) (tl (l_clone st))"
    using p by (cases "l_clone st") auto
  finally show ?thesis
    using assms True p by (simp add: childContents_def bareCandidate_def Let_def bareLine_def)
next
  case False
  then have "\<not> (l_clone st \<noteq> [] \<and> hd (l_clone st) \<noteq> childSObject child \<and>
               childSObject child \<in> set (tl (l_clone st)))"
    using findIndex_pos [of "childSObject child" "l_clone st"] by blast
  then have "(if l_clone st \<noteq> [] \<and> hd (l_clone st) \<noteq> childSObject child \<and>
               childSObject child \<in> set (tl (l_clone st))
            then st\<lparr>l_clone := hd (l_clone st) # remove1 (childSObject child) (tl (l_clone st)),
                    l_typeContents := l_typeContents st @ bareLine (childSObject child)\<rparr>
            else st) = st"
    by (rule if_not_P)
  moreover have "childContents sObjects st child = st"
    using assms False by (simp add: childContents_def bareCandidate_def Let_def)
  ultimately show ?thesis by simp
qed

lemma childContents_clone_other:
  "\<not> bareCandidate sObjects child \<Longrightarrow> l_clone (childContents sObjects st child) = l_clone st"
  by (auto simp: childContents_def bareCandidate_def Let_def)

lemma count_list_remove1:
  "count_list (remove1 c xs) y = (if y = c then count_list xs c - 1 else count_list xs y)"
  by (induction xs) auto

lemma count_list_pos: "0 < count_list xs c \<longleftrightarrow> c \<in> set xs"
  by (induction xs) auto

lemma clone_after_Nil:
  "l_clone st = [] \<Longrightarrow> l_clone (foldl (childContents sObjects) st pre) = []"
proof (induction pre rule: rev_induct)
  case Nil
  then show ?case by simp
next
  case (snoc child pre)
  then show ?case
    by (cases "bareCandidate sObjects child")
       (simp_all add: childContents_bare childContents_clone_other)
qed

lemma clone_after_Cons:
  assumes "l_clone st = x # rest"
  shows "\<exists>rest'. l_clone (foldl (childContents sObjects) st pre) = x # rest' \<and>
           (\<forall>c. c \<noteq> x \<longrightarrow>
              count_list rest' c =
              count_list rest c -
              length (filter (\<lambda>ch. bareCandidate sObjects ch \<and> childSObject ch = c) pre))"
proof (induction pre rule: rev_induct)
  case Nil
  then show ?case using assms by simp
next
  case (snoc child pre)
  then obtain rest' where r: "l_clone (foldl (childContents sObjects) st pre) = x # rest'"
    and cnt: "\<And>c. c \<noteq> x \<Longrightarrow> count_list rest' c =
              count_list rest c -
              length (filter (\<lambda>ch. bareCandidate sObjects ch \<and> childSObject ch = c) pre)"
    by blast
  let ?st = "foldl (childContents sObjects) st pre"
  show ?case
  proof (cases "bareCandidate sObjects child")
    case False
    then show ?thesis
      using r cnt by (simp add: childContents_clone_other)
  next
    case True
    note cand = this
    show ?thesis
    proof (cases "x \<noteq> childSObject child \<and> childSObject child \<in> set rest'")
      case True
      then have "l_clone (childContents sObjects ?st child)
                   = x # remove1 (childSObject child) rest'"
        using r cand by (simp add: childContents_bare)
      moreover have "\<forall>c. c \<noteq> x \<longrightarrow>
              count_list (remove1 (childSObject child) rest') c =
              count_list rest c -
              length (filter (\<lambda>ch. bareCandidate sObjects ch \<and> childSObject ch = c)
                        (pre @ [child]))"
        using cnt cand by (auto simp: count_list_remove1)
      ultimately show ?thesis by simp
    next
      case False
      then have same: "l_clone (childContents sObjects ?st child) = x # rest'"
        using r cand by (auto simp: childContents_bare)
      have "count_list rest' c =
              count_list rest c -
              length (filter (\<lambda>ch. bareCandidate sObjects ch \<and> childSObject ch = c)
                        (pre @ [child]))" if "c \<noteq> x" for c
      proof (cases "c = childSObject child")
        case True
        then have "c \<notin> set rest'" using False that by auto
        then have "count_list rest' c = 0"
          using count_list_pos [of rest' c] by simp
        then show ?thesis
          using cnt [OF that] by simp
      next
        case False
        then show ?thesis using cnt [OF that] by auto
      qed
      then show ?thesis using same by simp
    qed
  qed
qed

text \<open>
  C4, as the code has it. The loop over the child relationships starts with the clone
  of the caller's list \<open>allow\<close> (empty when the caller gave none). For a child
  relationship with no \<^verbatim>\<open>relationshipName\<close> and no junction targets whose child entity
  \<open>c\<close>, a non-empty name, is in the known entity set, coming after the child
  relationships \<open>pre\<close> of the same object: the bare property \<open>c: c;\<close> is appended if
  and only if \<open>c\<close> is not the first entry of the caller's list and occurs among the
  later entries more often than there are earlier child relationships of this kind with
  the same child entity. An emission removes the matched entry from the clone; a match
  at index 0 does nothing.
\<close>

theorem bare_property_allow_list:
  assumes "childSObject child \<in> knownSet sObjects" and "childSObject child \<noteq> []"
    and "\<not> truthy (childRelationshipName child)"
    and "junctionReferenceTo child = []"
  shows "foldl (childContents sObjects)
           \<lparr>l_typeContents = tc, l_clone = allow, l_unmapped = unmappedSet\<rparr> (pre @ [child]) =
           (let st' = foldl (childContents sObjects)
                        \<lparr>l_typeContents = tc, l_clone = allow, l_unmapped = unmappedSet\<rparr> pre;
                c = childSObject child;
                earlier = length (filter (\<lambda>ch. bareCandidate sObjects ch \<and> childSObject ch = c) pre)
            in if allow \<noteq> [] \<and> hd allow \<noteq> c \<and> earlier < count_list (tl allow) c
               then st'\<lparr>l_clone := hd (l_clone st') # remove1 c (tl (l_clone st')),
                        l_typeContents := l_typeContents st' @ ''\<newline>  '' @ c @ '': '' @ c @ '';''\<rparr>
               else st')"
proof -
  let ?st = "\<lparr>l_typeContents = tc, l_clone = allow, l_unmapped = unmappedSet\<rparr>"
  let ?st' = "foldl (childContents sObjects) ?st pre"
  let ?c = "childSObject child"
  have cand: "bareCandidate sObjects child"
    using assms by (simp add: bareCandidate_def known_iff)
  show ?thesis
  proof (cases allow)
    case Nil
    then have "l_clone ?st' = []"
      by (simp add: clone_after_Nil)
    then show ?thesis
      using cand Nil by (simp add: childContents_bare Let_def)
  next
    case (Cons x rest)
    then have "l_clone ?st = x # rest" by simp
    then obtain rest' where r: "l_clone ?st' = x # rest'"
      and cnt: "\<And>c. c \<noteq> x \<Longrightarrow> count_list rest' c =
                count_list rest c -
                length (filter (\<lambda>ch. bareCandidate sObjects ch \<and> childSObject ch = c) pre)"
      using clone_after_Cons [of ?st x rest sObjects pre] by blast
    have "?c \<in> set rest' \<longleftrightarrow>
            length (filter (\<lambda>ch. bareCandidate sObjects ch \<and> childSObject ch = ?c) pre)
              < count_list rest ?c" if "x \<noteq> ?c"
      using cnt [of ?c] that count_list_pos [of rest' ?c] by auto
    then show ?thesis
      using cand Cons r by (auto simp: childContents_bare Let_def bareLine_def)
  qed
qed

theorem bare_property_allow_list_witness:
  "childSObject ex_note \<in> knownSet (Some [''Account'', ''Note'']) \<and>
   childSObject ex_note \<noteq> [] \<and> \<not> truthy (childRelationshipName ex_note) \<and>
   junctionReferenceTo ex_note = [] \<and>
   foldl (childContents (Some [''Account'', ''Note'']))
     \<lparr>l_typeContents = [], l_clone = [''X'', ''Note'', ''Note''], l_unmapped = []\<rparr>
     ([ex_note] @ [ex_note]) =
     \<lparr>l_typeContents = ''\<newline>  Note: Note;\<newline>  Note: Note;'', l_clone = [''X''], l_unmapped = []\<rparr> \<and>
   foldl (childContents (Some [''Account'', ''Note'']))
     \<lparr>l_typeContents = [], l_clone = [''X'', ''Note''], l_unmapped = []\<rparr>
     ([ex_note] @ [ex_note]) =
     \<lparr>l_typeContents = ''\<newline>  Note: Note;'', l_clone = [''X''], l_unmapped = []\<rparr> \<and>
   foldl (childContents (Some [''Account'', ''Note'']))
     \<lparr>l_typeContents = [], l_clone = [''Note'', ''X''], l_unmapped = []\<rparr>
     ([] @ [ex_note]) =
     \<lparr>l_typeContents = [], l_clone = [''Note'', ''X''], l_unmapped = []\<rparr>"
proof -
  have h1: "childSObject ex_note \<in> knownSet (Some [''Account'', ''Note''])"
    by (simp add: ex_note_def knownSet_def)
  have h2: "childSObject ex_note \<noteq> []"
    by (simp add: ex_note_def)
  have h3: "\<not> truthy (childRelationshipName ex_note)"
    by (simp add: ex_note_def truthy_def)
  have h4: "junctionReferenceTo ex_note = []"
    by (simp add: ex_note_def)
  note t = bare_property_allow_list [OF h1 h2 h3 h4]
  have e1: "foldl (childContents (Some [''Account'', ''Note'']))
     \<lparr>l_typeContents = [], l_clone = [''X'', ''Note'', ''Note''], l_unmapped = []\<rparr>
     ([ex_note] @ [ex_note]) =
     \<lparr>l_typeContents = ''\<newline>  Note: Note;\<newline>  Note: Note;'', l_clone = [''X''], l_unmapped = []\<rparr>"
    using t [of "[]" "[''X'', ''Note'', ''Note'']" "[]" "[ex_note]"] by code_simp
  have e2: "foldl (childContents (Some [''Account'', ''Note'']))
     \<lparr>l_typeContents = [], l_clone = [''X'', ''Note''], l_unmapped = []\<rparr>
     ([ex_note] @ [ex_note]) =
     \<lparr>l_typeContents = ''\<newline>  Note: Note;'', l_clone = [''X''], l_unmapped = []\<rparr>"
    using t [of "[]" "[''X'', ''Note'']" "[]" "[ex_note]"] by code_simp
  have e3: "foldl (childContents (Some [''Account'', ''Note'']))
     \<lparr>l_typeContents = [], l_clone = [''Note'', ''X''], l_unmapped = []\<rparr>
     ([] @ [ex_note]) =
     \<lparr>l_typeContents = [], l_clone = [''Note'', ''X''], l_unmapped = []\<rparr>"
    using t [of "[]" "[''Note'', ''X'']" "[]" "[]"] by code_simp
  show ?thesis
    using h1 h2 h3 h4 e1 e2 e3 by simp
qed

text \<open>
  The claim as it is written fails where two child relationships of this kind have the
  same child entity: the name is at index 1 of the caller's list, and only the first
  of the two relationships gets the property.
\<close>

theorem allow_list_counterexample:
  "known (Some [''Account'', ''Note'']) (childSObject ex_note) \<and>
   childRelationshipName ex_note = None \<and> junctionReferenceTo ex_note = [] \<and>
   childRelationships ex_notes = [ex_note, ex_note] \<and>
   [''X'', ''Note''] ! 1 = childSObject ex_note \<and>
   fst (buildTypeContents ex_notes ''Account'' (Some [''Account'', ''Note''])
          (Some [''X'', ''Note'']) []) =
     ''\<newline>\<newline>export interface Account extends SObjectAttribute<'' @ SQ @ ''Account'' @ SQ @ ''> {'' @
     ''\<newline>  Note: Note;'' @
     ''\<newline>};\<newline>''"
  by code_simp

subsection \<open>Single mode\<close>

lemma known_None: "\<not> known None r"
  by (simp add: known_def)

lemma refTypeNameOf_None: "refTypeNameOf None field = None"
  by (simp add: refTypeNameOf_eq known_None)

lemma fieldContents_None:
  "fieldContents None tc field =
     tc @ (if name field = ''Id'' then []
           else ''\<newline>  '' @ name field @ '': '' @ typeName (ftype field) @ '';'' @
                (if calculated field then '' //calculated'' else []))"
  by (simp add: fieldContents_def Let_def refTypeNameOf_None truthy_def)

lemma foldl_fieldContents_None:
  "foldl (fieldContents None) tc fs =
     tc @ concat (map (\<lambda>field. if name field = ''Id'' then []
           else ''\<newline>  '' @ name field @ '': '' @ typeName (ftype field) @ '';'' @
                (if calculated field then '' //calculated'' else [])) fs)"
  by (induction fs arbitrary: tc) (simp_all add: fieldContents_None)

lemma childContents_None:
  "childContents None st child =
     (if truthy (childRelationshipName child)
      then st\<lparr>l_unmapped := set_add (childSObject child) (l_unmapped st),
              l_typeContents := l_typeContents st @
                childRecordsLine ''  '' (interpolate (childRelationshipName child))
                  (childSObject child)\<rparr>
      else st)"
  by (simp add: childContents_def Let_def known_None)

lemma foldl_childContents_None:
  "l_typeContents (foldl (childContents None) st children) =
     l_typeContents st @
     concat (map (\<lambda>child. if truthy (childRelationshipName child)
        then childRecordsLine ''  '' (interpolate (childRelationshipName child))
               (childSObject child)
        else []) children)"
  by (induction children arbitrary: st) (simp_all add: childContents_None)

lemma buildTypeContents_None:
  "buildTypeContents d objectName None allow unmappedSet =
     (''\<newline>\<newline>export interface '' @ objectName @ '' extends SObjectAttribute<'' @ SQ @ objectName @
        SQ @ ''> {'' @
      concat (map (\<lambda>field. if name field = ''Id'' then []
           else ''\<newline>  '' @ name field @ '': '' @ typeName (ftype field) @ '';'' @
                (if calculated field then '' //calculated'' else [])) (fieldList d)) @
      concat (map (\<lambda>child. if truthy (childRelationshipName child)
        then childRecordsLine ''  '' (interpolate (childRelationshipName child))
               (childSObject child)
        else []) (childRelationships d)) @
      ''\<newline>};\<newline>'',
      foldl (\<lambda>s c. set_add c s) unmappedSet
        (map childSObject
           (filter (\<lambda>child. truthy (childRelationshipName child)) (childRelationships d))))"
proof -
  have "filter (unmappedChild None) (childRelationships d)
          = filter (\<lambda>child. truthy (childRelationshipName child)) (childRelationships d)"
    by (rule filter_cong) (simp_all add: unmappedChild_def known_None)
  then have "snd (buildTypeContents d objectName None allow unmappedSet) =
      foldl (\<lambda>s c. set_add c s) unmappedSet
        (map childSObject
           (filter (\<lambda>child. truthy (childRelationshipName child)) (childRelationships d)))"
    by (simp add: snd_buildTypeContents)
  moreover have "fst (buildTypeContents d objectName None allow unmappedSet) =
      ''\<newline>\<newline>export interface '' @ objectName @ '' extends SObjectAttribute<'' @ SQ @ objectName @
        SQ @ ''> {'' @
      concat (map (\<lambda>field. if name field = ''Id'' then []
           else ''\<newline>  '' @ name field @ '': '' @ typeName (ftype field) @ '';'' @
                (if calculated field then '' //calculated'' else [])) (fieldList d)) @
      concat (map (\<lambda>child. if truthy (childRelationshipName child)
        then childRecordsLine ''  '' (interpolate (childRelationshipName child))
               (childSObject child)
        else []) (childRelationships d)) @
      ''\<newline>};\<newline>''"
    by (simp add: buildTypeContents_def Let_def foldl_childContents_None
          foldl_fieldContents_None)
  ultimately show ?thesis
    by (simp add: prod_eq_iff)
qed

text \<open>
  C6, as the code has it. In single mode the list of known objects is absent. The block
  then has, for every field but the identity field, its scalar property only (no
  relationship property for a reference field); no property for a child relationship
  without a name; and, for every child relationship with a non-empty
  \<^verbatim>\<open>relationshipName\<close>, the child-records property named after the relationship,
  whose child entity is added to the set of unmapped types.
\<close>

theorem single_mode_block:
  "buildTypeContents d objectName None allow unmappedSet =
     (''\<newline>\<newline>export interface '' @ objectName @ '' extends SObjectAttribute<'' @ SQ @ objectName @
        SQ @ ''> {'' @
      concat (map (\<lambda>field. if name field = ''Id'' then []
           else ''\<newline>  '' @ name field @ '': '' @ typeName (ftype field) @ '';'' @
                (if calculated field then '' //calculated'' else [])) (fieldList d)) @
      concat (map (\<lambda>child. if truthy (childRelationshipName child)
        then childRecordsLine ''  '' (interpolate (childRelationshipName child))
               (childSObject child)
        else []) (childRelationships d)) @
      ''\<newline>};\<newline>'',
      foldl (\<lambda>s c. set_add c s) unmappedSet
        (map childSObject
           (filter (\<lambda>child. truthy (childRelationshipName child)) (childRelationships d))))"
  by (rule buildTypeContents_None)

theorem single_mode_block_witness:
  "buildTypeContents ex_account ''Account'' None None [] =
     (''\<newline>\<newline>export interface Account extends SObjectAttribute<'' @ SQ @ ''Account'' @ SQ @ ''> {'' @
      ''\<newline>  OwnerId: ID;'' @
      ''\<newline>  Total: number; //calculated'' @
      ''\<newline>  Contacts: ChildRecords<Contact, '' @ SQ @ ''Contact'' @ SQ @ ''>;'' @
      ''\<newline>  Cases: ChildRecords<Case, '' @ SQ @ ''Case'' @ SQ @ ''>;'' @
      ''\<newline>};\<newline>'',
      [''Contact'', ''Case''])"
  using single_mode_block [of ex_account "''Account''" None "[]"]
  by code_simp

text \<open>
  The claim as it is written, that the block of single mode has no relationship property
  for any child relationship, fails on an object with a named child relationship.
\<close>

theorem single_mode_counterexample:
  "childRelationships ex_account ! 0 =
     \<lparr>childSObject = ''Contact'', childRelationshipName = Some ''Contacts'',
      junctionReferenceTo = []\<rparr> \<and>
   fst (buildTypeContents ex_account ''Account'' None None []) =
      ''\<newline>\<newline>export interface Account extends SObjectAttribute<'' @ SQ @ ''Account'' @ SQ @ ''> {'' @
      ''\<newline>  OwnerId: ID;'' @
      ''\<newline>  Total: number; //calculated'' @
      ''\<newline>  Contacts: ChildRecords<Contact, '' @ SQ @ ''Contact'' @ SQ @ ''>;'' @
      ''\<newline>  Cases: ChildRecords<Case, '' @ SQ @ ''Case'' @ SQ @ ''>;'' @
      ''\<newline>};\<newline>''"
  by code_simp

text \<open>
  C5 at a failing input. Single mode on an object with two named child relationships
  writes a file that refers to the types \<open>Contact\<close> and \<open>Case\<close>; the file declares
  neither and has no section of unmapped types, although both names were added to the
  set that batch mode writes out as that section.
\<close>

theorem single_mode_dangling:
  "generateSObject ex_single =
     (None,
      ex_single
        \<lparr>unmappedChildRelationships := [''Contact'', ''Case''],
         fs_written :=
           [(Join ''out'' ''account.ts'',
             ''\<newline>\<newline>export interface Account extends SObjectAttribute<'' @ SQ @ ''Account'' @ SQ @ ''> {'' @
             ''\<newline>  OwnerId: ID;'' @
             ''\<newline>  Total: number; //calculated'' @
             ''\<newline>  Contacts: ChildRecords<Contact, '' @ SQ @ ''Contact'' @ SQ @ ''>;'' @
             ''\<newline>  Cases: ChildRecords<Case, '' @ SQ @ ''Case'' @ SQ @ ''>;'' @
             ''\<newline>};\<newline>'')],
         createdFiles := [Join ''out'' ''account.ts'']\<rparr>)"
  by (simp add: generateSObject_def ex_single_def generateSObjectTypeContents_def ex_describe_def
        buildTypeContents_None writeFile_def join_def Let_def)
     code_simp






subsection \<open>The mode check of \<^verbatim>\<open>generate\<close>\<close>

text \<open>
  C8. When the output directory can be listed and the two mode flags are both given
  (non-empty) or both missing, \<^verbatim>\<open>generate\<close> writes the two fixed files
  \<open>sobject.ts\<close> and \<open>sobjectFieldTypes.ts\<close>, in this order and before looking at
  the flags, appends the message of the case to the standard error stream, and does
  nothing else: no other file is written and the set of unmapped types is unchanged.
\<close>

theorem generate_mode_error:
  assumes "fs_readdir g (flags_outputdir g)"
    and "truthy (flags_sobject g) = truthy (flags_config g)"
  shows "generate order g =
           (None,
            g\<lparr>fs_written := fs_written g @
                 [(join (flags_outputdir g) ''sobject.ts'', sobject),
                  (join (flags_outputdir g) ''sobjectFieldTypes.ts'', sobjectFieldTypes)],
              createdFiles := createdFiles g @
                 [join (flags_outputdir g) ''sobject.ts'',
                  join (flags_outputdir g) ''sobjectFieldTypes.ts''],
              stderr := stderr g @
                 (if truthy (flags_sobject g) then ''Please provide only -s or -c, not both''
                  else ''Please provide a -s or -c'')\<rparr>)"
  using assms
  by (simp add: generate_def createBaseSObjectType_def createSalesforceFieldTypes_def
        writeFile_def Let_def)

theorem generate_mode_error_witness:
  "fs_readdir ex_both (flags_outputdir ex_both) \<and>
   truthy (flags_sobject ex_both) \<and> truthy (flags_config ex_both) \<and>
   fs_readdir ex_neither (flags_outputdir ex_neither) \<and>
   \<not> truthy (flags_sobject ex_neither) \<and> \<not> truthy (flags_config ex_neither) \<and>
   fst (generate [] ex_both) = None \<and>
   fs_written (snd (generate [] ex_both)) =
     [(Join ''out'' ''sobject.ts'', sobject),
      (Join ''out'' ''sobjectFieldTypes.ts'', sobjectFieldTypes)] \<and>
   stderr (snd (generate [] ex_both)) = ''Please provide only -s or -c, not both'' \<and>
   fst (generate [] ex_neither) = None \<and>
   fs_written (snd (generate [] ex_neither)) =
     [(Join ''out'' ''sobject.ts'', sobject),
      (Join ''out'' ''sobjectFieldTypes.ts'', sobjectFieldTypes)] \<and>
   stderr (snd (generate [] ex_neither)) = ''Please provide a -s or -c''"
proof -
  have b: "fs_readdir ex_both (flags_outputdir ex_both)"
    "truthy (flags_sobject ex_both)" "truthy (flags_config ex_both)"
    by (simp_all add: ex_both_def ex_single_def truthy_def)
  have n: "fs_readdir ex_neither (flags_outputdir ex_neither)"
    "\<not> truthy (flags_sobject ex_neither)" "\<not> truthy (flags_config ex_neither)"
    by (simp_all add: ex_neither_def ex_single_def truthy_def)
  have tb: "truthy (flags_sobject ex_both) = truthy (flags_config ex_both)"
    using b by simp
  have tn: "truthy (flags_sobject ex_neither) = truthy (flags_config ex_neither)"
    using n by simp
  note t1 = generate_mode_error [OF b(1) tb, of "[]"]
  note t2 = generate_mode_error [OF n(1) tn, of "[]"]
  have s: "fs_written ex_both = []" "stderr ex_both = []" "flags_outputdir ex_both = ''out''"
    "fs_written ex_neither = []" "stderr ex_neither = []" "flags_outputdir ex_neither = ''out''"
    by (simp_all add: ex_both_def ex_neither_def ex_single_def)
  show ?thesis
    using t1 t2 b n by (simp add: s join_def)
qed

subsection \<open>The file name of single mode\<close>

text \<open>
  C9 at a failing input. \<^verbatim>\<open>replace\<close> with a string pattern replaces one occurrence:
  of the underscores of \<open>My_Custom_Object__c\<close> only the first is removed.
\<close>

theorem fileNameOf_first_underscore:
  "fileNameOf ''My_Custom_Object__c'' = ''mycustom_object.ts''"
  by code_simp

subsection \<open>The batch document and its promises\<close>

text \<open>
  The file written by a batch run does not depend on the order in which the describe
  requests complete: the order only changes the order of insertion into the set of
  unmapped types, which is sorted before it is written.
\<close>

lemma set_foldl_settle:
  "set (foldl (settle g cfg) unmappedSet order) =
     set unmappedSet \<union> (\<Union>i \<in> set order. set (settle g cfg [] i))"
proof (induction order arbitrary: unmappedSet)
  case Nil
  then show ?case by simp
next
  case (Cons i order)
  have "set (settle g cfg unmappedSet i) = set unmappedSet \<union> set (settle g cfg [] i)"
    by (simp add: set_settle)
  then show ?case
    using Cons [of "settle g cfg unmappedSet i"] by auto
qed

lemma batch_document_order_independent:
  assumes "flags_config g = Some file" and "fs_config g file = Parsed cfg"
    and "list_all (\<lambda>s. connection_describe g s \<noteq> None) (sobjects cfg)"
    and "distinct (unmappedChildRelationships g)"
    and "set order = set order'"
  shows "fs_written (snd (generateSObjectsConfig order g)) =
         fs_written (snd (generateSObjectsConfig order' g))"
proof -
  let ?U = "foldl (settle g cfg) (unmappedChildRelationships g) order"
  let ?U' = "foldl (settle g cfg) (unmappedChildRelationships g) order'"
  have "set ?U = set ?U'"
    using assms(5) by (simp add: set_foldl_settle)
  moreover have "distinct ?U" "distinct ?U'"
    using assms(4) by (simp_all add: distinct_foldl_settle)
  ultimately have "sort ?U = sort ?U'"
    by (intro sorted_distinct_set_unique) simp_all
  then show ?thesis
    by (simp add: generateSObjectsConfig_ok [OF assms(1,2,3)])
qed

text \<open>
  C7 at a failing input. The promise of each object is fulfilled with the block of the
  object, but line 221 appends the promise itself, not its value: the document holds
  the text \<open>[object Promise]\<close> once per name where the blocks should be.
\<close>

theorem batch_document_promises:
  "promiseOf ex_batch ex_config ''Contact'' =
     Fulfilled
       (''\<newline>\<newline>export interface Contact extends SObjectAttribute<'' @ SQ @ ''Contact'' @ SQ @ ''> {'' @
        ''\<newline>  Phone: PhoneString;'' @
        ''\<newline>  Cases: ChildRecords<Case, '' @ SQ @ ''Case'' @ SQ @ ''>;'' @
        ''\<newline>  Assets: ChildRecords<Asset, '' @ SQ @ ''Asset'' @ SQ @ ''>;'' @
        ''\<newline>};\<newline>'') \<and>
   generateSObjectsConfig [0, 1] ex_batch =
     (None,
      ex_batch
        \<lparr>unmappedChildRelationships := [''Case'', ''Asset''],
         fs_written :=
           [(Join ''out'' ''sobjects.ts'',
             generateFileHeader @ ''[object Promise][object Promise]'' @
             ''\<newline>// unmapped types:\<newline>type Asset = any; \<newline>type Case = any; '')],
         createdFiles := [Join ''out'' ''sobjects.ts'']\<rparr>)"
proof -
  have h1: "flags_config ex_batch = Some ''config.json''"
    by (simp add: ex_batch_def)
  have h2: "fs_config ex_batch ''config.json'' = Parsed ex_config"
    by (simp add: ex_batch_def)
  have h3: "list_all (\<lambda>s. connection_describe ex_batch s \<noteq> None) (sobjects ex_config)"
    by (simp add: ex_batch_def ex_config_def ex_describe_def)
  have u: "foldl (settle ex_batch ex_config) (unmappedChildRelationships ex_batch) [0, 1]
             = [''Case'', ''Asset'']"
    by code_simp
  have u': "settle ex_batch ex_config
              (settle ex_batch ex_config (unmappedChildRelationships ex_batch) 0) (Suc 0)
             = [''Case'', ''Asset'']"
    using u by simp
  have s: "sort [''Case'', ''Asset''] = [''Asset'', ''Case'']"
    by code_simp
  have p: "promiseOf ex_batch ex_config ''Contact'' =
     Fulfilled
       (''\<newline>\<newline>export interface Contact extends SObjectAttribute<'' @ SQ @ ''Contact'' @ SQ @ ''> {'' @
        ''\<newline>  Phone: PhoneString;'' @
        ''\<newline>  Cases: ChildRecords<Case, '' @ SQ @ ''Case'' @ SQ @ ''>;'' @
        ''\<newline>  Assets: ChildRecords<Asset, '' @ SQ @ ''Asset'' @ SQ @ ''>;'' @
        ''\<newline>};\<newline>'')"
    by code_simp
  have e: "fs_written ex_batch = []" "createdFiles ex_batch = []"
    "flags_outputdir ex_batch = ''out''" "sobjects ex_config = [''Account'', ''Contact'']"
    by (simp_all add: ex_batch_def ex_config_def)
  have d: "generateSObjectsConfig [0, 1] ex_batch =
     (None,
      ex_batch
        \<lparr>unmappedChildRelationships := [''Case'', ''Asset''],
         fs_written :=
           [(Join ''out'' ''sobjects.ts'',
             generateFileHeader @ ''[object Promise][object Promise]'' @
             ''\<newline>// unmapped types:\<newline>type Asset = any; \<newline>type Case = any; '')],
         createdFiles := [Join ''out'' ''sobjects.ts'']\<rparr>)"
    unfolding generateSObjectsConfig_ok [OF h1 h2 h3]
    by (simp add: u' s e promiseToString_def unmappedLine_def join_def)
  from p d show ?thesis by (rule conjI)
qed

end
